theory Spec2Isabelle
  imports Main "HOL-Library.Word"
begin

unbundle bit_operations_syntax

section \<open>Machine types\<close>

text \<open>
  The accessor is written for the ARM hard processor of the FPGA board: a C \<open>int\<close> is a
  32-bit two's complement value and a pointer is a 32-bit address. \<open>size_t\<close> values are
  loop counts that only grow up to a bound, and are natural numbers.
\<close>

type_synonym int32 = "32 word"
type_synonym addr = "32 word"

section \<open>Digit encoding\<close>

text \<open>
  \<open>numbertodigit\<close> of fpga.c: a \<open>switch\<close> over the cases 0 to 9 with a default of 0.
  The patterns are the binary literals of the source.
\<close>

definition numbertodigit :: "int32 \<Rightarrow> int32" where
  "numbertodigit number =
     (if number = 0 then 0b0111111
      else if number = 1 then 0b0000110
      else if number = 2 then 0b1011011
      else if number = 3 then 0b1001111
      else if number = 4 then 0b1100110
      else if number = 5 then 0b1101101
      else if number = 6 then 0b1111101
      else if number = 7 then 0b0000111
      else if number = 8 then 0b1111111
      else if number = 9 then 0b1101111
      else 0)"

text \<open>
  The standard seven-segment table, written from the specification and independently of
  the code: the segments lit for each decimal digit, and the pattern of a set of segments
  with bit 0 for segment A up to bit 6 for segment G.
\<close>

datatype segment = SegA | SegB | SegC | SegD | SegE | SegF | SegG

fun segment_bit :: "segment \<Rightarrow> nat" where
  "segment_bit SegA = 0"
| "segment_bit SegB = 1"
| "segment_bit SegC = 2"
| "segment_bit SegD = 3"
| "segment_bit SegE = 4"
| "segment_bit SegF = 5"
| "segment_bit SegG = 6"

definition spec_segments :: "nat \<Rightarrow> segment list" where
  "spec_segments d =
     (if d = 0 then [SegA, SegB, SegC, SegD, SegE, SegF]
      else if d = 1 then [SegB, SegC]
      else if d = 2 then [SegA, SegB, SegD, SegE, SegG]
      else if d = 3 then [SegA, SegB, SegC, SegD, SegG]
      else if d = 4 then [SegB, SegC, SegF, SegG]
      else if d = 5 then [SegA, SegC, SegD, SegF, SegG]
      else if d = 6 then [SegA, SegC, SegD, SegE, SegF, SegG]
      else if d = 7 then [SegA, SegB, SegC]
      else if d = 8 then [SegA, SegB, SegC, SegD, SegE, SegF, SegG]
      else if d = 9 then [SegA, SegB, SegC, SegD, SegF, SegG]
      else [])"

fun segments_pattern :: "segment list \<Rightarrow> int32" where
  "segments_pattern [] = 0"
| "segments_pattern (s # ss) = push_bit (segment_bit s) 1 OR segments_pattern ss"

definition spec_encodeDigit :: "int \<Rightarrow> int32" where
  "spec_encodeDigit v = (if 0 \<le> v \<and> v \<le> 9 then segments_pattern (spec_segments (nat v)) else 0)"

section \<open>The handle and the constants of the header\<close>

text \<open>
  Modelled from the spec: the structure \<open>fpga_map_arm_t\<close> is declared in \<open>fpga.h\<close>, which
  is not among the sources. Its fields are the ones \<open>fpga.c\<close> reads and writes: the file
  descriptor, the base of the mapping, and the seven register pointers (the button bank
  and HEX0 to HEX5), each a view into the mapping.
\<close>

record fpga_map_arm_t =
  fd :: int32
  mapped_ptr :: addr
  KEY_ptr :: addr
  HEX0_ptr :: addr
  HEX1_ptr :: addr
  HEX2_ptr :: addr
  HEX3_ptr :: addr
  HEX4_ptr :: addr
  HEX5_ptr :: addr

text \<open>
  The address constants of \<open>fpga.h\<close> (the physical base and span of the bridge and the
  byte offsets of the registers) are parameters of the model: every function that uses
  them takes the header as its first argument, and every theorem holds for any header.
\<close>

record fpga_h =
  LW_BRIDGE_BASE :: addr
  LW_BRIDGE_SPAN :: addr
  KEY_BASE :: addr
  HEX0_BASE :: addr
  HEX1_BASE :: addr
  HEX2_BASE :: addr
  HEX3_BASE :: addr
  HEX4_BASE :: addr
  HEX5_BASE :: addr

text \<open>
  Modelled from the spec: the status macros \<open>SUCCESS\<close> and \<open>ERROR\<close> of \<open>fpga.h\<close>. The
  doc comments of \<open>fpgainit\<close> and \<open>fpgaclose\<close> give their values, 0 and -1, and the
  specification calls the error a generic negative code.
\<close>

definition SUCCESS :: int32 where
  "SUCCESS = 0"

definition ERROR :: int32 where
  "ERROR = - 1"

text \<open>\<open>MAP_FAILED\<close> of the system's \<open>sys/mman.h\<close>: the pointer \<open>(void *) -1\<close>.\<close>

definition MAP_FAILED :: addr where
  "MAP_FAILED = - 1"

section \<open>The operating system and the register window\<close>

text \<open>
  Everything the accessor does to the outside is an event: a system call with its
  arguments and result, a diagnostic message, or an access to a memory-mapped register.
\<close>

datatype event =
    Open_call string int32
  | Mmap_call addr int32 addr addr
  | Munmap_call addr addr int32
  | Close_call int32
  | Printf_call string
  | Reg_read addr int32
  | Reg_write addr int32

text \<open>
  The state outside the handle: the descriptors the process holds open, the bases of its
  live mappings, the registers as last written, and the events so far. A register read
  returns what the hardware presents at that moment, which the program does not control:
  \<open>device w k a\<close> is the value at address \<open>a\<close> for the read number \<open>k\<close>, and \<open>clock\<close> counts
  the reads done.
\<close>

record world =
  open_fds :: "int32 set"
  mappings :: "addr set"
  device :: "nat \<Rightarrow> addr \<Rightarrow> int32"
  clock :: nat
  regs :: "addr \<Rightarrow> int32"
  trace :: "event list"

text \<open>
  The system calls. What a call returns is decided by the system, so the result \<open>r\<close> is
  an argument; the functions record the call and its effect on the process. \<open>open\<close>
  returns -1 on failure and the new descriptor otherwise; \<open>mmap\<close> returns \<open>MAP_FAILED\<close> or
  the base of the new mapping; \<open>munmap\<close> returns 0 when it has removed the mapping;
  \<open>close\<close> releases the descriptor.
\<close>

definition sys_open :: "string \<Rightarrow> int32 \<Rightarrow> world \<Rightarrow> world" where
  "sys_open path r w =
     w\<lparr>open_fds := (if r = - 1 then open_fds w else insert r (open_fds w)),
       trace := trace w @ [Open_call path r]\<rparr>"

definition sys_mmap :: "addr \<Rightarrow> int32 \<Rightarrow> addr \<Rightarrow> addr \<Rightarrow> world \<Rightarrow> world" where
  "sys_mmap len f off r w =
     w\<lparr>mappings := (if r = MAP_FAILED then mappings w else insert r (mappings w)),
       trace := trace w @ [Mmap_call len f off r]\<rparr>"

definition sys_munmap :: "addr \<Rightarrow> addr \<Rightarrow> int32 \<Rightarrow> world \<Rightarrow> world" where
  "sys_munmap a len r w =
     w\<lparr>mappings := (if r = 0 then mappings w - {a} else mappings w),
       trace := trace w @ [Munmap_call a len r]\<rparr>"

definition sys_close :: "int32 \<Rightarrow> world \<Rightarrow> world" where
  "sys_close f w = w\<lparr>open_fds := open_fds w - {f}, trace := trace w @ [Close_call f]\<rparr>"

definition sys_printf :: "string \<Rightarrow> world \<Rightarrow> world" where
  "sys_printf msg w = w\<lparr>trace := trace w @ [Printf_call msg]\<rparr>"

definition reg_read :: "addr \<Rightarrow> world \<Rightarrow> int32 \<times> world" where
  "reg_read a w =
     (device w (clock w) a,
      w\<lparr>clock := clock w + 1, trace := trace w @ [Reg_read a (device w (clock w) a)]\<rparr>)"

definition reg_write :: "addr \<Rightarrow> int32 \<Rightarrow> world \<Rightarrow> world" where
  "reg_write a v w = w\<lparr>regs := (regs w)(a := v), trace := trace w @ [Reg_write a v]\<rparr>"

section \<open>Opening and closing the mapping\<close>

text \<open>
  \<open>fpgainit\<close> of fpga.c, with the results of \<open>open\<close> and \<open>mmap\<close> as arguments. It returns
  the status, the handle and the world. The first failure returns the literal -1 and the
  second the macro \<open>ERROR\<close>, as the source does.
\<close>

definition fpgainit ::
  "fpga_h \<Rightarrow> int32 \<Rightarrow> addr \<Rightarrow> fpga_map_arm_t \<Rightarrow> world \<Rightarrow> int32 \<times> fpga_map_arm_t \<times> world" where
  "fpgainit H open_ret mmap_ret fpga_map w =
     (let w1 = sys_open ''/dev/mem'' open_ret w;
          m1 = fpga_map\<lparr>fd := open_ret\<rparr>
      in if fd m1 = - 1 then (- 1, m1, sys_printf ''Couldn't open /dev/mem'' w1)
         else
           let w2 = sys_mmap (LW_BRIDGE_SPAN H) (fd m1) (LW_BRIDGE_BASE H) mmap_ret w1;
               m2 = m1\<lparr>mapped_ptr := mmap_ret\<rparr>
           in if mapped_ptr m2 = MAP_FAILED
              then (ERROR, m2, sys_close (fd m2) (sys_printf ''Couldn't map /dev/mem'' w2))
              else (SUCCESS,
                    m2\<lparr>KEY_ptr := mapped_ptr m2 + KEY_BASE H,
                       HEX5_ptr := mapped_ptr m2 + HEX5_BASE H,
                       HEX4_ptr := mapped_ptr m2 + HEX4_BASE H,
                       HEX3_ptr := mapped_ptr m2 + HEX3_BASE H,
                       HEX2_ptr := mapped_ptr m2 + HEX2_BASE H,
                       HEX1_ptr := mapped_ptr m2 + HEX1_BASE H,
                       HEX0_ptr := mapped_ptr m2 + HEX0_BASE H\<rparr>,
                    w2))"

text \<open>
  \<open>fpgaclose\<close> of fpga.c, with the result of \<open>munmap\<close> as an argument. The descriptor is
  compared as a signed integer (\<open>fd >= 0\<close>).
\<close>

definition fpgaclose ::
  "fpga_h \<Rightarrow> int32 \<Rightarrow> fpga_map_arm_t \<Rightarrow> world \<Rightarrow> int32 \<times> fpga_map_arm_t \<times> world" where
  "fpgaclose H munmap_ret fpga_map w =
     (let w1 = sys_munmap (mapped_ptr fpga_map) (LW_BRIDGE_SPAN H) munmap_ret w
      in if munmap_ret \<noteq> 0 then (ERROR, fpga_map, sys_printf ''Couldn't munmap /dev/mem'' w1)
         else if 0 \<le> sint (fd fpga_map)
              then (SUCCESS, fpga_map\<lparr>fd := - 1\<rparr>, sys_close (fd fpga_map) w1)
              else (SUCCESS, fpga_map, w1))"

section \<open>Reading the buttons\<close>

text \<open>
  The two operations of \<open>readkeys\<close> that C leaves undefined are faults of the model: a
  shift of an \<open>int\<close> by its width (32) or more, and a store outside the array the caller
  passed. Within range, \<open>>>\<close> on a signed \<open>int\<close> is the arithmetic shift of the
  target's compiler.
\<close>

datatype fault = Shift_out_of_range | Index_out_of_bounds

definition shift_right_int :: "int32 \<Rightarrow> nat \<Rightarrow> fault + int32" where
  "shift_right_int x n = (if n < 32 then Inr (signed_drop_bit n x) else Inl Shift_out_of_range)"

definition store_int :: "int32 list \<Rightarrow> nat \<Rightarrow> int32 \<Rightarrow> fault + int32 list" where
  "store_int a i v = (if i < length a then Inr (a[i := v]) else Inl Index_out_of_bounds)"

text \<open>
  The body of the loop, \<open>pressed_keys[i] = (~*fpga_map.KEY_ptr >> i) & 1\<close>: the register
  is read through the pointer here, inside the loop, then complemented, shifted, masked
  and stored.
\<close>

definition readkeys_body ::
  "fpga_map_arm_t \<Rightarrow> nat \<Rightarrow> int32 list \<Rightarrow> world \<Rightarrow> fault + (int32 list \<times> world)" where
  "readkeys_body fpga_map i pressed_keys w =
     (let (raw, w') = reg_read (KEY_ptr fpga_map) w
      in case shift_right_int (NOT raw) i of
           Inl e \<Rightarrow> Inl e
         | Inr shifted \<Rightarrow>
             (case store_int pressed_keys i (shifted AND 1) of
                Inl e \<Rightarrow> Inl e
              | Inr keys' \<Rightarrow> Inr (keys', w')))"

function readkeys_loop ::
  "fpga_map_arm_t \<Rightarrow> nat \<Rightarrow> nat \<Rightarrow> int32 list \<Rightarrow> world \<Rightarrow> fault + (int32 list \<times> world)" where
  "readkeys_loop fpga_map size_n i pressed_keys w =
     (if i < size_n
      then (case readkeys_body fpga_map i pressed_keys w of
              Inl e \<Rightarrow> Inl e
            | Inr (keys', w') \<Rightarrow> readkeys_loop fpga_map size_n (i + 1) keys' w')
      else Inr (pressed_keys, w))"
  by pat_completeness auto
termination
  by (relation "measure (\<lambda>(fpga_map, size_n, i, pressed_keys, w). size_n - i)") auto

declare readkeys_loop.simps [simp del]

definition readkeys ::
  "fpga_map_arm_t \<Rightarrow> int32 list \<Rightarrow> nat \<Rightarrow> world \<Rightarrow> fault + (int32 list \<times> world)" where
  "readkeys fpga_map pressed_keys size_n w = readkeys_loop fpga_map size_n 0 pressed_keys w"

text \<open>
  The specification's reading of the operation, written from its words: bit \<open>i\<close> of the
  inverted register value, and a version that reads the register once and then extracts
  the bits for the indices below \<open>size\<close>.
\<close>

definition inverted_bit :: "int32 \<Rightarrow> nat \<Rightarrow> int32" where
  "inverted_bit raw i = (if bit (NOT raw) i then 1 else 0)"

definition spec_readButtons ::
  "fpga_map_arm_t \<Rightarrow> int32 list \<Rightarrow> nat \<Rightarrow> world \<Rightarrow> fault + (int32 list \<times> world)" where
  "spec_readButtons fpga_map pressed_keys size_n w =
     (let (raw, w') = reg_read (KEY_ptr fpga_map) w
      in Inr (map (inverted_bit raw) [0..<size_n] @ drop size_n pressed_keys, w'))"

text \<open>The world after \<open>k\<close> further reads of the register at \<open>a\<close>, and nothing else.\<close>

definition after_reads :: "addr \<Rightarrow> nat \<Rightarrow> world \<Rightarrow> world" where
  "after_reads a k w =
     w\<lparr>clock := clock w + k,
       trace := trace w @ map (\<lambda>j. Reg_read a (device w (clock w + j) a)) [0..<k]\<rparr>"

text \<open>What a caller observes of a run: the fault, or the array and the events.\<close>

definition observed :: "fault + (int32 list \<times> world) \<Rightarrow> fault + (int32 list \<times> event list)" where
  "observed r = (case r of Inl e \<Rightarrow> Inl e | Inr (keys, w) \<Rightarrow> Inr (keys, trace w))"

section \<open>Writing a digit\<close>

text \<open>
  \<open>setdigit\<close> of fpga.c: a \<open>switch\<close> over the positions 0 to 5, each storing the
  complemented pattern through its own pointer; the default returns.
\<close>

definition setdigit :: "fpga_map_arm_t \<Rightarrow> int32 \<Rightarrow> int32 \<Rightarrow> world \<Rightarrow> world" where
  "setdigit fpga_map number hex w =
     (if hex = 0 then reg_write (HEX0_ptr fpga_map) (NOT (numbertodigit number)) w
      else if hex = 1 then reg_write (HEX1_ptr fpga_map) (NOT (numbertodigit number)) w
      else if hex = 2 then reg_write (HEX2_ptr fpga_map) (NOT (numbertodigit number)) w
      else if hex = 3 then reg_write (HEX3_ptr fpga_map) (NOT (numbertodigit number)) w
      else if hex = 4 then reg_write (HEX4_ptr fpga_map) (NOT (numbertodigit number)) w
      else if hex = 5 then reg_write (HEX5_ptr fpga_map) (NOT (numbertodigit number)) w
      else w)"

text \<open>The display register the specification selects by a position: HEX0 to HEX5.\<close>

definition display_register :: "fpga_map_arm_t \<Rightarrow> nat \<Rightarrow> addr" where
  "display_register fpga_map p =
     [HEX0_ptr fpga_map, HEX1_ptr fpga_map, HEX2_ptr fpga_map,
      HEX3_ptr fpga_map, HEX4_ptr fpga_map, HEX5_ptr fpga_map] ! p"

text \<open>The six display registers of a handle, in the world's register file.\<close>

definition display_values :: "fpga_map_arm_t \<Rightarrow> world \<Rightarrow> int32 list" where
  "display_values fpga_map w = map (\<lambda>p. regs w (display_register fpga_map p)) [0..<6]"

section \<open>A concrete board\<close>

text \<open>
  Concrete values on which the theorems below are run: a header, a handle as \<open>fpgainit\<close>
  leaves it for a mapping at 0x40000000, a handle never opened, and a world whose
  hardware is given by the function of the read number and the address.
\<close>

definition demo_h :: fpga_h where
  "demo_h = \<lparr>LW_BRIDGE_BASE = 0xFF200000, LW_BRIDGE_SPAN = 0x5000, KEY_BASE = 0x0,
     HEX0_BASE = 0x10, HEX1_BASE = 0x20, HEX2_BASE = 0x30, HEX3_BASE = 0x40,
     HEX4_BASE = 0x50, HEX5_BASE = 0x60\<rparr>"

definition demo_map :: fpga_map_arm_t where
  "demo_map = \<lparr>fd = 3, mapped_ptr = 0x40000000, KEY_ptr = 0x40000000,
     HEX0_ptr = 0x40000010, HEX1_ptr = 0x40000020, HEX2_ptr = 0x40000030,
     HEX3_ptr = 0x40000040, HEX4_ptr = 0x40000050, HEX5_ptr = 0x40000060\<rparr>"

definition unopened_map :: fpga_map_arm_t where
  "unopened_map = \<lparr>fd = - 1, mapped_ptr = 0, KEY_ptr = 0,
     HEX0_ptr = 0, HEX1_ptr = 0, HEX2_ptr = 0, HEX3_ptr = 0, HEX4_ptr = 0, HEX5_ptr = 0\<rparr>"

definition demo_world :: "(nat \<Rightarrow> addr \<Rightarrow> int32) \<Rightarrow> world" where
  "demo_world dev = \<lparr>open_fds = {3}, mappings = {0x40000000}, device = dev, clock = 0,
     regs = (\<lambda>a. 0), trace = []\<rparr>"

text \<open>Buttons held steady at a raw value, and a button bank that changes after the first read.\<close>

definition steady :: "int32 \<Rightarrow> nat \<Rightarrow> addr \<Rightarrow> int32" where
  "steady r k a = r"

definition changing :: "nat \<Rightarrow> addr \<Rightarrow> int32" where
  "changing k a = (if k = 0 then 0xFE else 0xFD)"

text \<open>The world of a process that has opened and mapped nothing yet.\<close>

definition boot_world :: world where
  "boot_world = \<lparr>open_fds = {}, mappings = {}, device = steady 0xFF, clock = 0,
     regs = (\<lambda>a. 0), trace = []\<rparr>"

section \<open>Digit encoding: properties\<close>

lemma sint_eq_word_of_int: "sint (v :: int32) = k \<Longrightarrow> v = word_of_int k"
  by auto

lemma sint_digit_cases:
  fixes v :: int32
  assumes "0 \<le> sint v" and "sint v \<le> 9"
  shows "v = 0 \<or> v = 1 \<or> v = 2 \<or> v = 3 \<or> v = 4 \<or> v = 5 \<or> v = 6 \<or> v = 7 \<or> v = 8 \<or> v = 9"
proof -
  have "sint v = 0 \<or> sint v = 1 \<or> sint v = 2 \<or> sint v = 3 \<or> sint v = 4 \<or> sint v = 5
      \<or> sint v = 6 \<or> sint v = 7 \<or> sint v = 8 \<or> sint v = 9"
    using assms by arith
  then show ?thesis
    by (elim disjE) (drule sint_eq_word_of_int, simp)+
qed

lemma numbertodigit_table:
  "numbertodigit 0 = 0b0111111" "numbertodigit 1 = 0b0000110"
  "numbertodigit 2 = 0b1011011" "numbertodigit 3 = 0b1001111"
  "numbertodigit 4 = 0b1100110" "numbertodigit 5 = 0b1101101"
  "numbertodigit 6 = 0b1111101" "numbertodigit 7 = 0b0000111"
  "numbertodigit 8 = 0b1111111" "numbertodigit 9 = 0b1101111"
  by (simp_all add: numbertodigit_def)

lemma spec_encodeDigit_table:
  "spec_encodeDigit 0 = 0b0111111" "spec_encodeDigit 1 = 0b0000110"
  "spec_encodeDigit 2 = 0b1011011" "spec_encodeDigit 3 = 0b1001111"
  "spec_encodeDigit 4 = 0b1100110" "spec_encodeDigit 5 = 0b1101101"
  "spec_encodeDigit 6 = 0b1111101" "spec_encodeDigit 7 = 0b0000111"
  "spec_encodeDigit 8 = 0b1111111" "spec_encodeDigit 9 = 0b1101111"
  by (simp_all add: spec_encodeDigit_def spec_segments_def)

lemma numbertodigit_out_of_range:
  fixes v :: int32
  assumes "sint v < 0 \<or> 9 < sint v"
  shows "numbertodigit v = 0"
proof -
  have "v \<noteq> 0" "v \<noteq> 1" "v \<noteq> 2" "v \<noteq> 3" "v \<noteq> 4" "v \<noteq> 5" "v \<noteq> 6" "v \<noteq> 7" "v \<noteq> 8" "v \<noteq> 9"
    using assms by auto
  then show ?thesis
    by (simp add: numbertodigit_def)
qed

text \<open>
  Claim C2. For every integer \<open>v\<close> in [0,9], \<open>numbertodigit v\<close> is the standard
  seven-segment pattern of \<open>v\<close> (bit 0 is segment A, bit 6 is segment G); 0 maps to
  0b0111111 and 8 maps to 0b1111111; for every \<open>v\<close> outside [0,9], negative values
  included, the result is 0.
\<close>

theorem numbertodigit_standard:
  fixes v :: int32
  shows "(0 \<le> sint v \<and> sint v \<le> 9 \<longrightarrow> numbertodigit v = spec_encodeDigit (sint v))
       \<and> (sint v < 0 \<or> 9 < sint v \<longrightarrow> numbertodigit v = 0)
       \<and> numbertodigit v = spec_encodeDigit (sint v)
       \<and> numbertodigit 0 = 0b0111111 \<and> numbertodigit 8 = 0b1111111"
proof -
  have in_range: "numbertodigit v = spec_encodeDigit (sint v)" if "0 \<le> sint v" "sint v \<le> 9"
  proof -
    from sint_digit_cases [OF that]
    consider "v = 0" | "v = 1" | "v = 2" | "v = 3" | "v = 4" | "v = 5" | "v = 6" | "v = 7"
      | "v = 8" | "v = 9"
      by blast
    then show ?thesis
      by cases (simp_all add: numbertodigit_table spec_encodeDigit_table)
  qed
  have out: "numbertodigit v = 0" "spec_encodeDigit (sint v) = 0" if "sint v < 0 \<or> 9 < sint v"
    using that by (auto simp: numbertodigit_out_of_range spec_encodeDigit_def)
  have "numbertodigit v = spec_encodeDigit (sint v)"
    using in_range out by (cases "0 \<le> sint v \<and> sint v \<le> 9") auto
  then show ?thesis
    using out by (simp add: numbertodigit_table)
qed

theorem numbertodigit_standard_witness:
  "numbertodigit 8 = spec_encodeDigit 8 \<and> numbertodigit 8 = 127
   \<and> numbertodigit (- 1) = 0 \<and> numbertodigit 10 = 0 \<and> spec_encodeDigit 8 = 127"
  using numbertodigit_standard [of 8] numbertodigit_standard [of "- 1"]
    numbertodigit_standard [of 10]
  by (simp add: spec_encodeDigit_table)

text \<open>
  Claim C9. For every value \<open>v\<close>, complementing the pattern of \<open>numbertodigit v\<close> twice
  gives the pattern back.
\<close>

theorem numbertodigit_double_complement:
  "NOT (NOT (numbertodigit v)) = numbertodigit v"
  by simp

section \<open>Writing a digit: properties\<close>

lemma sint_position_cases:
  fixes v :: int32
  assumes "0 \<le> sint v" and "sint v \<le> 5"
  shows "v = 0 \<or> v = 1 \<or> v = 2 \<or> v = 3 \<or> v = 4 \<or> v = 5"
proof -
  have "sint v = 0 \<or> sint v = 1 \<or> sint v = 2 \<or> sint v = 3 \<or> sint v = 4 \<or> sint v = 5"
    using assms by arith
  then show ?thesis
    by (elim disjE) (drule sint_eq_word_of_int, simp)+
qed

lemma setdigit_position:
  "setdigit fm v 0 w = reg_write (display_register fm 0) (NOT (numbertodigit v)) w"
  "setdigit fm v 1 w = reg_write (display_register fm 1) (NOT (numbertodigit v)) w"
  "setdigit fm v 2 w = reg_write (display_register fm 2) (NOT (numbertodigit v)) w"
  "setdigit fm v 3 w = reg_write (display_register fm 3) (NOT (numbertodigit v)) w"
  "setdigit fm v 4 w = reg_write (display_register fm 4) (NOT (numbertodigit v)) w"
  "setdigit fm v 5 w = reg_write (display_register fm 5) (NOT (numbertodigit v)) w"
  by (simp_all add: setdigit_def display_register_def)

text \<open>
  Claim C3. For every value \<open>v\<close> and every position \<open>p\<close> in [0,5], \<open>setdigit\<close> does
  exactly one register write: it stores the bitwise complement of \<open>numbertodigit v\<close> in
  the display register selected by \<open>p\<close>, and changes nothing else.
\<close>

theorem setdigit_writes_complement:
  fixes p :: int32
  assumes "0 \<le> sint p" and "sint p \<le> 5"
  shows "setdigit fm v p w =
           w\<lparr>regs := (regs w)(display_register fm (nat (sint p)) := NOT (numbertodigit v)),
             trace := trace w @ [Reg_write (display_register fm (nat (sint p)))
                                   (NOT (numbertodigit v))]\<rparr>"
proof -
  from sint_position_cases [OF assms]
  consider "p = 0" | "p = 1" | "p = 2" | "p = 3" | "p = 4" | "p = 5"
    by blast
  then show ?thesis
    by cases (simp_all add: setdigit_position reg_write_def)
qed

theorem setdigit_writes_complement_witness:
  "setdigit demo_map 8 2 (demo_world (steady 0xFE)) =
     (demo_world (steady 0xFE))\<lparr>regs := (\<lambda>a. 0)(0x40000030 := NOT 0b1111111),
        trace := [Reg_write 0x40000030 (NOT 0b1111111)]\<rparr>"
  using setdigit_writes_complement [of 2 demo_map 8 "demo_world (steady 0xFE)"]
  by (simp add: display_register_def demo_map_def demo_world_def numbertodigit_table)

text \<open>
  Claim C4. For every value \<open>v\<close> and every position \<open>p\<close> outside [0,5], \<open>setdigit\<close> does
  nothing: no register write and no other event, the six display registers and the rest
  of the state unchanged. The function has no status to return and no fault.
\<close>

theorem setdigit_out_of_range_noop:
  fixes p :: int32
  assumes "sint p < 0 \<or> 5 < sint p"
  shows "setdigit fm v p w = w
       \<and> trace (setdigit fm v p w) = trace w
       \<and> display_values fm (setdigit fm v p w) = display_values fm w"
proof -
  have "p \<noteq> 0" "p \<noteq> 1" "p \<noteq> 2" "p \<noteq> 3" "p \<noteq> 4" "p \<noteq> 5"
    using assms by auto
  then have "setdigit fm v p w = w"
    by (simp add: setdigit_def)
  then show ?thesis by simp
qed

theorem setdigit_out_of_range_noop_witness:
  "setdigit demo_map 8 6 (demo_world (steady 0xFE)) = demo_world (steady 0xFE)
   \<and> setdigit demo_map 8 (- 1) (demo_world (steady 0xFE)) = demo_world (steady 0xFE)
   \<and> trace (setdigit demo_map 8 6 (demo_world (steady 0xFE))) = []
   \<and> display_values demo_map (setdigit demo_map 8 6 (demo_world (steady 0xFE))) = [0, 0, 0, 0, 0, 0]"
  using setdigit_out_of_range_noop [of 6 demo_map 8 "demo_world (steady 0xFE)"]
    setdigit_out_of_range_noop [of "- 1" demo_map 8 "demo_world (steady 0xFE)"]
  by (simp add: demo_world_def display_values_def upt_conv_Cons)

section \<open>Reading the buttons: properties\<close>

lemma readkeys_loop_step:
  "i < n \<Longrightarrow> readkeys_loop fm n i keys w =
     (case readkeys_body fm i keys w of
        Inl e \<Rightarrow> Inl e
      | Inr (keys', w') \<Rightarrow> readkeys_loop fm n (i + 1) keys' w')"
  by (simp add: readkeys_loop.simps [of fm n i keys w])

lemma readkeys_loop_done:
  "\<not> i < n \<Longrightarrow> readkeys_loop fm n i keys w = Inr (keys, w)"
  by (simp add: readkeys_loop.simps [of fm n i keys w])

lemma shift_mask_bit:
  fixes x :: int32
  assumes "n < 32"
  shows "signed_drop_bit n x AND 1 = (if bit x n then 1 else 0)"
proof -
  have "bit (signed_drop_bit n x) 0 = bit x n"
    using assms by (simp add: bit_signed_drop_bit_iff)
  then have "odd (signed_drop_bit n x) = bit x n"
    by (simp add: bit_0)
  then show ?thesis
    by (simp add: and_one_eq mod_2_eq_odd)
qed

lemma readkeys_body_defined:
  assumes "i < 32" and "i < length keys"
  shows "readkeys_body fm i keys w =
           Inr (keys[i := inverted_bit (device w (clock w) (KEY_ptr fm)) i],
                after_reads (KEY_ptr fm) 1 w)"
  using assms
  by (simp add: readkeys_body_def reg_read_def shift_right_int_def store_int_def
      shift_mask_bit inverted_bit_def after_reads_def)

lemma readkeys_body_Inr:
  assumes "readkeys_body fm i keys w = Inr (keys', w')"
  shows "i < 32 \<and> i < length keys"
  using assms
  by (auto simp: readkeys_body_def reg_read_def shift_right_int_def store_int_def
      split: if_splits sum.splits prod.splits)

lemma after_reads_Suc:
  "after_reads a k (after_reads a (Suc 0) w) = after_reads a (Suc k) w"
  by (simp add: after_reads_def upt_conv_Cons del: upt_Suc flip: map_Suc_upt)

lemma readkeys_loop_defined:
  assumes "i \<le> n" and "n \<le> 32" and "n \<le> length keys"
  shows "\<exists>keys'. readkeys_loop fm n i keys w = Inr (keys', after_reads (KEY_ptr fm) (n - i) w)
           \<and> length keys' = length keys
           \<and> (\<forall>j < length keys. keys' ! j =
                 (if i \<le> j \<and> j < n
                  then inverted_bit (device w (clock w + (j - i)) (KEY_ptr fm)) j
                  else keys ! j))"
  using assms
proof (induction "n - i" arbitrary: i keys w)
  case 0
  then have "i = n" by simp
  then show ?case
    by (auto simp: after_reads_def readkeys_loop_done)
next
  case (Suc k)
  then have lt: "i < n" and i32: "i < 32" and ilen: "i < length keys"
    by simp_all
  let ?v = "inverted_bit (device w (clock w) (KEY_ptr fm)) i"
  let ?w1 = "after_reads (KEY_ptr fm) 1 w"
  have body: "readkeys_body fm i keys w = Inr (keys[i := ?v], ?w1)"
    using i32 ilen by (rule readkeys_body_defined)
  have k: "k = n - (i + 1)" using Suc.hyps(2) by simp
  from Suc.hyps(1) [OF k, of "keys[i := ?v]" ?w1] Suc.prems lt
  obtain keys' where
    run: "readkeys_loop fm n (i + 1) (keys[i := ?v]) ?w1
            = Inr (keys', after_reads (KEY_ptr fm) (n - (i + 1)) ?w1)"
    and len: "length keys' = length keys"
    and elems: "\<forall>j < length keys. keys' ! j =
                 (if i + 1 \<le> j \<and> j < n
                  then inverted_bit (device ?w1 (clock ?w1 + (j - (i + 1))) (KEY_ptr fm)) j
                  else keys[i := ?v] ! j)"
    by auto
  have w_eq: "after_reads (KEY_ptr fm) (n - (i + 1)) ?w1 = after_reads (KEY_ptr fm) (n - i) w"
    using lt by (simp add: after_reads_Suc Suc_diff_Suc)
  have "readkeys_loop fm n i keys w = Inr (keys', after_reads (KEY_ptr fm) (n - i) w)"
    using lt body run w_eq by (simp add: readkeys_loop_step)
  moreover have "keys' ! j =
                 (if i \<le> j \<and> j < n
                  then inverted_bit (device w (clock w + (j - i)) (KEY_ptr fm)) j
                  else keys ! j)" if "j < length keys" for j
  proof -
    have dev: "device ?w1 = device w" and clk: "clock ?w1 = clock w + 1"
      by (simp_all add: after_reads_def)
    show ?thesis
    proof (cases "j = i")
      case True
      then show ?thesis using elems that lt ilen by simp
    next
      case False
      then show ?thesis using elems that lt dev clk
        by (auto simp: Suc_diff_Suc)
    qed
  qed
  ultimately show ?case
    using len by blast
qed



lemma readkeys_defined:
  assumes "n \<le> 32" and "n \<le> length keys"
  shows "readkeys fm keys n w =
           Inr (map (\<lambda>j. inverted_bit (device w (clock w + j) (KEY_ptr fm)) j) [0..<n]
                  @ drop n keys,
                after_reads (KEY_ptr fm) n w)"
proof -
  from readkeys_loop_defined [of 0 n keys fm w] assms
  obtain keys' where
    run: "readkeys_loop fm n 0 keys w = Inr (keys', after_reads (KEY_ptr fm) n w)"
    and len: "length keys' = length keys"
    and elems: "\<forall>j < length keys. keys' ! j =
                 (if j < n then inverted_bit (device w (clock w + j) (KEY_ptr fm)) j
                  else keys ! j)"
    by auto
  have "keys' = map (\<lambda>j. inverted_bit (device w (clock w + j) (KEY_ptr fm)) j) [0..<n]
                  @ drop n keys"
  proof (rule nth_equalityI)
    show "length keys' =
            length (map (\<lambda>j. inverted_bit (device w (clock w + j) (KEY_ptr fm)) j) [0..<n]
                      @ drop n keys)"
      using len assms by simp
  next
    fix j
    assume "j < length keys'"
    then show "keys' ! j =
            (map (\<lambda>j. inverted_bit (device w (clock w + j) (KEY_ptr fm)) j) [0..<n]
               @ drop n keys) ! j"
      using elems len assms by (simp add: nth_append)
  qed
  then show ?thesis
    using run by (simp add: readkeys_def)
qed

lemma readkeys_loop_Inr_bounds:
  assumes "readkeys_loop fm n i keys w = Inr (keys', w')" and "i < n"
  shows "n \<le> 32 \<and> n \<le> length keys"
  using assms
proof (induction "n - i" arbitrary: i keys w)
  case 0
  then show ?case by simp
next
  case (Suc k)
  from Suc.prems obtain keys1 w1 where
    body: "readkeys_body fm i keys w = Inr (keys1, w1)"
    and rest: "readkeys_loop fm n (i + 1) keys1 w1 = Inr (keys', w')"
    by (auto simp: readkeys_loop_step split: sum.splits)
  from body have i32: "i < 32" and ilen: "i < length keys"
    using readkeys_body_Inr by blast+
  from body i32 ilen have len1: "length keys1 = length keys"
    by (auto simp: readkeys_body_defined)
  show ?case
  proof (cases "i + 1 < n")
    case True
    have "k = n - (i + 1)" using Suc.hyps(2) by simp
    from Suc.hyps(1) [OF this rest True] len1 show ?thesis by simp
  next
    case False
    then have "n = i + 1" using Suc.prems(2) by simp
    then show ?thesis using i32 ilen by simp
  qed
qed

lemma readkeys_Inr_bounds:
  assumes "readkeys fm keys n w = Inr (keys', w')"
  shows "n \<le> 32 \<and> n \<le> length keys"
proof (cases "n = 0")
  case True
  then show ?thesis by simp
next
  case False
  then show ?thesis
    using assms readkeys_loop_Inr_bounds [of fm n 0 keys w keys' w']
    by (simp add: readkeys_def)
qed


text \<open>
  Claim C5, as amended. For every raw button-register value \<open>r\<close> and every size \<open>n\<close> of
  at most 32, the width of \<open>int\<close>, with an array of at least \<open>n\<close> elements: when the
  register reads \<open>r\<close> during the call, \<open>readkeys\<close> returns with bit \<open>i\<close> of the bitwise
  inversion of \<open>r\<close> stored at each index \<open>i\<close> below \<open>n\<close>, and the rest of the array as it
  was. For \<open>r = 0xFE\<close> and \<open>n = 4\<close> the output is [1,0,0,0].
\<close>

theorem readkeys_inverted_bits:
  assumes "n \<le> 32" and "n \<le> length keys"
    and "\<forall>k < n. device w (clock w + k) (KEY_ptr fm) = r"
  shows "\<exists>w'. readkeys fm keys n w = Inr (map (inverted_bit r) [0..<n] @ drop n keys, w')"
proof -
  have "map (\<lambda>j. inverted_bit (device w (clock w + j) (KEY_ptr fm)) j) [0..<n]
          = map (inverted_bit r) [0..<n]"
    using assms(3) by simp
  then show ?thesis
    using readkeys_defined [OF assms(1,2), of fm w] by simp
qed

theorem readkeys_inverted_bits_witness:
  "\<exists>w'. readkeys demo_map [0, 0, 0, 0] 4 (demo_world (steady 0xFE)) = Inr ([1, 0, 0, 0], w')"
proof -
  have "\<forall>k < 4. device (demo_world (steady 0xFE)) (clock (demo_world (steady 0xFE)) + k)
                   (KEY_ptr demo_map) = 0xFE"
    by (simp add: demo_world_def steady_def)
  from readkeys_inverted_bits [of 4 "[0, 0, 0, 0]" "demo_world (steady 0xFE)" demo_map "0xFE", OF _ _ this]
  show ?thesis
    by (simp add: inverted_bit_def upt_conv_Cons bit_simps)
qed

text \<open>
  The claim as first stated takes every size. At size 33 the last iteration shifts an
  \<open>int\<close> by 32, which C leaves undefined: nothing is stored for the claim to describe.
\<close>

theorem readkeys_every_size_counterexample:
  "observed (readkeys demo_map (replicate 33 0) 33 (demo_world (steady 0xFE)))
     = Inl Shift_out_of_range"
  by (simp add: observed_def readkeys_def readkeys_loop_step readkeys_loop_done
      readkeys_body_def reg_read_def shift_right_int_def store_int_def
      demo_map_def demo_world_def steady_def)

text \<open>
  Claim C1, as amended. For every size \<open>n\<close> of at most 32 with an array of at least \<open>n\<close>
  elements, \<open>readkeys\<close> reads the button register exactly \<open>n\<close> times, once for each
  index and never for size 0; when all these reads return the same value, its output is
  the output of the version that reads the register once and then extracts the bits.
\<close>

theorem readkeys_reads_per_index:
  assumes "n \<le> 32" and "n \<le> length keys"
  shows "\<exists>keys' w'. readkeys fm keys n w = Inr (keys', w')
           \<and> trace w' = trace w @ map (\<lambda>k. Reg_read (KEY_ptr fm) (device w (clock w + k) (KEY_ptr fm))) [0..<n]
           \<and> clock w' = clock w + n
           \<and> ((\<forall>k < n. device w (clock w + k) (KEY_ptr fm) = device w (clock w) (KEY_ptr fm))
                \<longrightarrow> (\<exists>w''. spec_readButtons fm keys n w = Inr (keys', w'')))"
proof -
  let ?keys' = "map (\<lambda>j. inverted_bit (device w (clock w + j) (KEY_ptr fm)) j) [0..<n] @ drop n keys"
  have run: "readkeys fm keys n w = Inr (?keys', after_reads (KEY_ptr fm) n w)"
    using assms by (rule readkeys_defined)
  have "\<exists>w''. spec_readButtons fm keys n w = Inr (?keys', w'')"
    if "\<forall>k < n. device w (clock w + k) (KEY_ptr fm) = device w (clock w) (KEY_ptr fm)"
    using that by (simp add: spec_readButtons_def reg_read_def)
  then show ?thesis
    using run by (simp add: after_reads_def)
qed

theorem readkeys_reads_per_index_witness:
  "observed (readkeys demo_map [7, 7, 7, 7, 7] 4 (demo_world (steady 0xFE)))
     = Inr ([1, 0, 0, 0, 7], [Reg_read 0x40000000 0xFE, Reg_read 0x40000000 0xFE,
                              Reg_read 0x40000000 0xFE, Reg_read 0x40000000 0xFE])
   \<and> (\<exists>w''. spec_readButtons demo_map [7, 7, 7, 7, 7] 4 (demo_world (steady 0xFE))
          = Inr ([1, 0, 0, 0, 7], w''))"
proof -
  have steady: "\<forall>k < 4. device (demo_world (steady 0xFE)) (clock (demo_world (steady 0xFE)) + k)
                        (KEY_ptr demo_map)
                    = device (demo_world (steady 0xFE)) (clock (demo_world (steady 0xFE)))
                        (KEY_ptr demo_map)"
    by (simp add: demo_world_def steady_def)
  from readkeys_reads_per_index [of 4 "[7, 7, 7, 7, 7]" demo_map "demo_world (steady 0xFE)"]
  obtain keys' w' where
    run: "readkeys demo_map [7, 7, 7, 7, 7] 4 (demo_world (steady 0xFE)) = Inr (keys', w')"
    and tr: "trace w' = trace (demo_world (steady 0xFE)) @
               map (\<lambda>k. Reg_read (KEY_ptr demo_map)
                      (device (demo_world (steady 0xFE)) (clock (demo_world (steady 0xFE)) + k)
                         (KEY_ptr demo_map))) [0..<4]"
    and once: "\<exists>w''. spec_readButtons demo_map [7, 7, 7, 7, 7] 4 (demo_world (steady 0xFE))
                 = Inr (keys', w'')"
    using steady by auto
  from once have keys': "keys' = [1, 0, 0, 0, 7]"
    by (simp add: spec_readButtons_def reg_read_def inverted_bit_def demo_map_def
        demo_world_def steady_def upt_conv_Cons bit_simps)
  from tr have "trace w' = [Reg_read 0x40000000 0xFE, Reg_read 0x40000000 0xFE,
                            Reg_read 0x40000000 0xFE, Reg_read 0x40000000 0xFE]"
    by (simp add: demo_map_def demo_world_def steady_def upt_conv_Cons)
  then show ?thesis
    using run once keys' by (simp add: observed_def)
qed

text \<open>
  The claim as first stated has one read for any size. With steady buttons and size 4 the
  code reads four times and the single-read version once; at size 0 the code does not
  read at all; when the buttons change after the first read the two outputs differ; and
  at size 33 the code runs into the undefined shift, where the single-read version has
  no fault.
\<close>

theorem readkeys_reads_once_counterexample:
  "observed (readkeys demo_map [0, 0, 0, 0] 4 (demo_world (steady 0xFE)))
     = Inr ([1, 0, 0, 0], [Reg_read 0x40000000 0xFE, Reg_read 0x40000000 0xFE,
                           Reg_read 0x40000000 0xFE, Reg_read 0x40000000 0xFE])
   \<and> observed (spec_readButtons demo_map [0, 0, 0, 0] 4 (demo_world (steady 0xFE)))
     = Inr ([1, 0, 0, 0], [Reg_read 0x40000000 0xFE])
   \<and> observed (readkeys demo_map [0, 0, 0, 0] 0 (demo_world (steady 0xFE))) = Inr ([0, 0, 0, 0], [])
   \<and> observed (spec_readButtons demo_map [0, 0, 0, 0] 0 (demo_world (steady 0xFE)))
     = Inr ([0, 0, 0, 0], [Reg_read 0x40000000 0xFE])
   \<and> observed (readkeys demo_map [0, 0, 0, 0] 4 (demo_world changing))
     = Inr ([1, 1, 0, 0], [Reg_read 0x40000000 0xFE, Reg_read 0x40000000 0xFD,
                           Reg_read 0x40000000 0xFD, Reg_read 0x40000000 0xFD])
   \<and> observed (spec_readButtons demo_map [0, 0, 0, 0] 4 (demo_world changing))
     = Inr ([1, 0, 0, 0], [Reg_read 0x40000000 0xFE])
   \<and> observed (readkeys demo_map (replicate 33 7) 33 (demo_world changing))
     = Inl Shift_out_of_range"
  by (simp add: observed_def readkeys_def readkeys_loop_step readkeys_loop_done
      readkeys_body_def spec_readButtons_def reg_read_def shift_right_int_def store_int_def
      inverted_bit_def demo_map_def demo_world_def steady_def changing_def upt_conv_Cons
      bit_simps)




section \<open>Opening and closing the mapping: properties\<close>

lemma status_values: "sint ERROR = - 1" "sint SUCCESS = 0" "ERROR \<noteq> SUCCESS" "SUCCESS \<noteq> - 1"
  by (simp_all add: ERROR_def SUCCESS_def)

lemma fpgainit_open_failed:
  "fpgainit H (- 1) mmap_ret fm w =
     (- 1, fm\<lparr>fd := - 1\<rparr>,
      w\<lparr>trace := trace w @ [Open_call ''/dev/mem'' (- 1), Printf_call ''Couldn't open /dev/mem'']\<rparr>)"
  by (simp add: fpgainit_def sys_open_def sys_printf_def)

lemma fpgainit_map_failed:
  assumes "open_ret \<noteq> - 1"
  shows "fpgainit H open_ret MAP_FAILED fm w =
     (ERROR, fm\<lparr>fd := open_ret, mapped_ptr := MAP_FAILED\<rparr>,
      w\<lparr>open_fds := open_fds w - {open_ret},
        trace := trace w @ [Open_call ''/dev/mem'' open_ret,
                            Mmap_call (LW_BRIDGE_SPAN H) open_ret (LW_BRIDGE_BASE H) MAP_FAILED,
                            Printf_call ''Couldn't map /dev/mem'',
                            Close_call open_ret]\<rparr>)"
  using assms
  by (simp add: fpgainit_def sys_open_def sys_mmap_def sys_printf_def sys_close_def)

lemma fpgainit_succeeded:
  assumes "open_ret \<noteq> - 1" and "mmap_ret \<noteq> MAP_FAILED"
  shows "fpgainit H open_ret mmap_ret fm w =
     (SUCCESS,
      fm\<lparr>fd := open_ret, mapped_ptr := mmap_ret,
         KEY_ptr := mmap_ret + KEY_BASE H,
         HEX5_ptr := mmap_ret + HEX5_BASE H, HEX4_ptr := mmap_ret + HEX4_BASE H,
         HEX3_ptr := mmap_ret + HEX3_BASE H, HEX2_ptr := mmap_ret + HEX2_BASE H,
         HEX1_ptr := mmap_ret + HEX1_BASE H, HEX0_ptr := mmap_ret + HEX0_BASE H\<rparr>,
      w\<lparr>open_fds := insert open_ret (open_fds w),
        mappings := insert mmap_ret (mappings w),
        trace := trace w @ [Open_call ''/dev/mem'' open_ret,
                            Mmap_call (LW_BRIDGE_SPAN H) open_ret (LW_BRIDGE_BASE H) mmap_ret]\<rparr>)"
  using assms
  by (simp add: fpgainit_def sys_open_def sys_mmap_def)

text \<open>
  Claim C6. \<open>fpgainit\<close> returns a negative code in exactly two cases. When \<open>open\<close> fails
  it returns -1 with the descriptor field of the handle at -1 and no descriptor opened.
  When \<open>mmap\<close> fails it prints, closes the descriptor it opened and returns \<open>ERROR\<close>:
  on neither path is a descriptor open that was not open before. Otherwise it returns
  \<open>SUCCESS\<close>.
\<close>

theorem fpgainit_failures:
  assumes "fpgainit H open_ret mmap_ret fm w = (ret, fm', w')"
  shows "(sint ret < 0 \<longleftrightarrow> open_ret = - 1 \<or> mmap_ret = MAP_FAILED)
       \<and> (open_ret = - 1 \<longrightarrow>
            ret = - 1 \<and> fd fm' = - 1 \<and> open_fds w' = open_fds w \<and> mappings w' = mappings w
            \<and> trace w' = trace w @ [Open_call ''/dev/mem'' (- 1),
                                     Printf_call ''Couldn't open /dev/mem''])
       \<and> (open_ret \<noteq> - 1 \<and> mmap_ret = MAP_FAILED \<longrightarrow>
            ret = ERROR \<and> open_ret \<notin> open_fds w' \<and> open_fds w' \<subseteq> open_fds w
            \<and> mappings w' = mappings w
            \<and> trace w' = trace w @ [Open_call ''/dev/mem'' open_ret,
                   Mmap_call (LW_BRIDGE_SPAN H) open_ret (LW_BRIDGE_BASE H) MAP_FAILED,
                   Printf_call ''Couldn't map /dev/mem'',
                   Close_call open_ret])
       \<and> (open_ret \<noteq> - 1 \<and> mmap_ret \<noteq> MAP_FAILED \<longrightarrow> ret = SUCCESS)"
proof (cases "open_ret = - 1")
  case True
  with assms fpgainit_open_failed [of H mmap_ret fm w] show ?thesis
    by auto
next
  case opened: False
  show ?thesis
  proof (cases "mmap_ret = MAP_FAILED")
    case True
    with opened assms fpgainit_map_failed [of open_ret H fm w] show ?thesis
      by (auto simp: status_values)
  next
    case False
    with opened assms fpgainit_succeeded [of open_ret mmap_ret H fm w] show ?thesis
      by (auto simp: status_values)
  qed
qed

theorem fpgainit_failures_witness:
  "fpgainit demo_h (- 1) 0x40000000 demo_map boot_world =
     (- 1, demo_map\<lparr>fd := - 1\<rparr>,
      boot_world\<lparr>trace := [Open_call ''/dev/mem'' (- 1), Printf_call ''Couldn't open /dev/mem'']\<rparr>)
   \<and> fst (fpgainit demo_h 3 MAP_FAILED unopened_map boot_world) = ERROR
   \<and> open_fds (snd (snd (fpgainit demo_h 3 MAP_FAILED unopened_map boot_world))) = {}
   \<and> trace (snd (snd (fpgainit demo_h 3 MAP_FAILED unopened_map boot_world))) =
        [Open_call ''/dev/mem'' 3, Mmap_call 0x5000 3 0xFF200000 MAP_FAILED,
         Printf_call ''Couldn't map /dev/mem'', Close_call 3]
   \<and> fst (fpgainit demo_h 3 0x40000000 unopened_map boot_world) = SUCCESS"
proof -
  have a: "fpgainit demo_h (- 1) 0x40000000 demo_map boot_world =
     (- 1, demo_map\<lparr>fd := - 1\<rparr>,
      boot_world\<lparr>trace := [Open_call ''/dev/mem'' (- 1), Printf_call ''Couldn't open /dev/mem'']\<rparr>)"
    by (simp add: fpgainit_def sys_open_def sys_printf_def boot_world_def)
  obtain r2 m2 w2 where b: "fpgainit demo_h 3 MAP_FAILED unopened_map boot_world = (r2, m2, w2)"
    by (cases "fpgainit demo_h 3 MAP_FAILED unopened_map boot_world") auto
  obtain r3 m3 w3 where c: "fpgainit demo_h 3 0x40000000 unopened_map boot_world = (r3, m3, w3)"
    by (cases "fpgainit demo_h 3 0x40000000 unopened_map boot_world") auto
  from fpgainit_failures [OF b] have "r2 = ERROR" "open_fds w2 \<subseteq> {}"
    "trace w2 = [Open_call ''/dev/mem'' 3, Mmap_call 0x5000 3 0xFF200000 MAP_FAILED,
         Printf_call ''Couldn't map /dev/mem'', Close_call 3]"
    by (simp_all add: boot_world_def demo_h_def)
  moreover from fpgainit_failures [OF c] have "r3 = SUCCESS"
    by (simp add: MAP_FAILED_def)
  ultimately show ?thesis
    using a b c by simp
qed

text \<open>
  Claim C8. On every successful return of \<open>fpgainit\<close> the handle is fully populated: the
  descriptor is the one \<open>open\<close> returned, is not -1 and is open; the base is the one
  \<open>mmap\<close> returned, is not \<open>MAP_FAILED\<close> and is mapped; and each of the seven register
  pointers (the button bank and HEX0 to HEX5) is the base plus its byte offset.
\<close>

theorem fpgainit_success_populated:
  assumes "fpgainit H open_ret mmap_ret fm w = (ret, fm', w')" and "ret = SUCCESS"
  shows "fd fm' = open_ret \<and> fd fm' \<noteq> - 1 \<and> fd fm' \<in> open_fds w'
       \<and> (open_ret = - 1 \<or> 0 \<le> sint open_ret \<longrightarrow> 0 \<le> sint (fd fm'))
       \<and> mapped_ptr fm' = mmap_ret \<and> mapped_ptr fm' \<noteq> MAP_FAILED
       \<and> mapped_ptr fm' \<in> mappings w'
       \<and> KEY_ptr fm' = mapped_ptr fm' + KEY_BASE H
       \<and> HEX0_ptr fm' = mapped_ptr fm' + HEX0_BASE H
       \<and> HEX1_ptr fm' = mapped_ptr fm' + HEX1_BASE H
       \<and> HEX2_ptr fm' = mapped_ptr fm' + HEX2_BASE H
       \<and> HEX3_ptr fm' = mapped_ptr fm' + HEX3_BASE H
       \<and> HEX4_ptr fm' = mapped_ptr fm' + HEX4_BASE H
       \<and> HEX5_ptr fm' = mapped_ptr fm' + HEX5_BASE H"
proof -
  have opened: "open_ret \<noteq> - 1"
  proof
    assume "open_ret = - 1"
    with assms(1) fpgainit_open_failed [of H mmap_ret fm w] have "ret = - 1"
      by simp
    with assms(2) show False
      by (simp add: SUCCESS_def)
  qed
  have mapped: "mmap_ret \<noteq> MAP_FAILED"
  proof
    assume "mmap_ret = MAP_FAILED"
    with assms(1) opened fpgainit_map_failed [of open_ret H fm w] have "ret = ERROR"
      by simp
    with assms(2) show False
      by (simp add: status_values)
  qed
  from fpgainit_succeeded [OF opened mapped, of H fm w] assms(1) opened mapped
  show ?thesis
    by auto
qed

theorem fpgainit_success_populated_witness:
  "fpgainit demo_h 3 0x40000000 unopened_map boot_world =
     (SUCCESS, demo_map,
      boot_world\<lparr>open_fds := {3}, mappings := {0x40000000},
        trace := [Open_call ''/dev/mem'' 3, Mmap_call 0x5000 3 0xFF200000 0x40000000]\<rparr>)
   \<and> fd demo_map = 3 \<and> mapped_ptr demo_map = 0x40000000
   \<and> KEY_ptr demo_map = mapped_ptr demo_map + KEY_BASE demo_h
   \<and> HEX0_ptr demo_map = mapped_ptr demo_map + HEX0_BASE demo_h
   \<and> HEX5_ptr demo_map = mapped_ptr demo_map + HEX5_BASE demo_h"
proof -
  have run: "fpgainit demo_h 3 0x40000000 unopened_map boot_world =
     (SUCCESS, demo_map,
      boot_world\<lparr>open_fds := {3}, mappings := {0x40000000},
        trace := [Open_call ''/dev/mem'' 3, Mmap_call 0x5000 3 0xFF200000 0x40000000]\<rparr>)"
    by (simp add: fpgainit_def sys_open_def sys_mmap_def MAP_FAILED_def demo_h_def
        demo_map_def unopened_map_def boot_world_def)
  from fpgainit_success_populated [OF run] show ?thesis
    using run by simp
qed


lemma fpgaclose_unmap_failed:
  assumes "munmap_ret \<noteq> 0"
  shows "fpgaclose H munmap_ret fm w =
     (ERROR, fm,
      w\<lparr>trace := trace w @ [Munmap_call (mapped_ptr fm) (LW_BRIDGE_SPAN H) munmap_ret,
                            Printf_call ''Couldn't munmap /dev/mem'']\<rparr>)"
  using assms by (simp add: fpgaclose_def sys_munmap_def sys_printf_def)

lemma fpgaclose_valid_fd:
  assumes "0 \<le> sint (fd fm)"
  shows "fpgaclose H 0 fm w =
     (SUCCESS, fm\<lparr>fd := - 1\<rparr>,
      w\<lparr>open_fds := open_fds w - {fd fm}, mappings := mappings w - {mapped_ptr fm},
        trace := trace w @ [Munmap_call (mapped_ptr fm) (LW_BRIDGE_SPAN H) 0,
                            Close_call (fd fm)]\<rparr>)"
  using assms by (simp add: fpgaclose_def sys_munmap_def sys_close_def)

lemma fpgaclose_invalid_fd:
  assumes "sint (fd fm) < 0"
  shows "fpgaclose H 0 fm w =
     (SUCCESS, fm,
      w\<lparr>mappings := mappings w - {mapped_ptr fm},
        trace := trace w @ [Munmap_call (mapped_ptr fm) (LW_BRIDGE_SPAN H) 0]\<rparr>)"
  using assms by (simp add: fpgaclose_def sys_munmap_def)

text \<open>
  Claim C7. When \<open>munmap\<close> fails, \<open>fpgaclose\<close> returns the error, prints, and leaves the
  handle and the open descriptors as they were: no \<open>close\<close> is called. When \<open>munmap\<close>
  succeeds, a descriptor field of 0 or more is closed and reset to -1, and a negative one,
  such as the -1 left by a failed \<open>fpgainit\<close>, is not closed: the only event is the
  \<open>munmap\<close>.
\<close>

theorem fpgaclose_paths:
  assumes "fpgaclose H munmap_ret fm w = (ret, fm', w')"
  shows "(munmap_ret \<noteq> 0 \<longrightarrow>
            ret = ERROR \<and> sint ret < 0 \<and> fm' = fm \<and> open_fds w' = open_fds w
            \<and> trace w' = trace w @ [Munmap_call (mapped_ptr fm) (LW_BRIDGE_SPAN H) munmap_ret,
                                     Printf_call ''Couldn't munmap /dev/mem''])
       \<and> (munmap_ret = 0 \<and> 0 \<le> sint (fd fm) \<longrightarrow>
            ret = SUCCESS \<and> fm' = fm\<lparr>fd := - 1\<rparr> \<and> fd fm \<notin> open_fds w'
            \<and> trace w' = trace w @ [Munmap_call (mapped_ptr fm) (LW_BRIDGE_SPAN H) 0,
                                     Close_call (fd fm)])
       \<and> (munmap_ret = 0 \<and> sint (fd fm) < 0 \<longrightarrow>
            ret = SUCCESS \<and> fm' = fm \<and> open_fds w' = open_fds w
            \<and> trace w' = trace w @ [Munmap_call (mapped_ptr fm) (LW_BRIDGE_SPAN H) 0])
       \<and> (munmap_ret = 0 \<and> (0 \<le> sint (fd fm) \<or> fd fm = - 1) \<longrightarrow> fd fm' = - 1)"
proof (cases "munmap_ret = 0")
  case False
  with assms fpgaclose_unmap_failed [of munmap_ret H fm w] show ?thesis
    by (auto simp: status_values)
next
  case unmapped: True
  show ?thesis
  proof (cases "0 \<le> sint (fd fm)")
    case True
    with unmapped assms fpgaclose_valid_fd [of fm H w] show ?thesis
      by auto
  next
    case False
    then have "sint (fd fm) < 0" by simp
    with unmapped assms fpgaclose_invalid_fd [of fm H w] show ?thesis
      by auto
  qed
qed

theorem fpgaclose_paths_witness:
  "fpgaclose demo_h (- 1) demo_map (demo_world (steady 0xFF)) =
     (ERROR, demo_map,
      (demo_world (steady 0xFF))\<lparr>trace := [Munmap_call 0x40000000 0x5000 (- 1),
                                           Printf_call ''Couldn't munmap /dev/mem'']\<rparr>)
   \<and> fpgaclose demo_h 0 demo_map (demo_world (steady 0xFF)) =
     (SUCCESS, demo_map\<lparr>fd := - 1\<rparr>,
      (demo_world (steady 0xFF))\<lparr>open_fds := {}, mappings := {},
         trace := [Munmap_call 0x40000000 0x5000 0, Close_call 3]\<rparr>)
   \<and> fpgaclose demo_h 0 unopened_map boot_world =
     (SUCCESS, unopened_map, boot_world\<lparr>trace := [Munmap_call 0 0x5000 0]\<rparr>)"
proof -
  have a: "fpgaclose demo_h (- 1) demo_map (demo_world (steady 0xFF)) =
     (ERROR, demo_map,
      (demo_world (steady 0xFF))\<lparr>trace := [Munmap_call 0x40000000 0x5000 (- 1),
                                           Printf_call ''Couldn't munmap /dev/mem'']\<rparr>)"
    by (simp add: fpgaclose_def sys_munmap_def sys_printf_def demo_h_def demo_map_def
        demo_world_def)
  have b: "fpgaclose demo_h 0 demo_map (demo_world (steady 0xFF)) =
     (SUCCESS, demo_map\<lparr>fd := - 1\<rparr>,
      (demo_world (steady 0xFF))\<lparr>open_fds := {}, mappings := {},
         trace := [Munmap_call 0x40000000 0x5000 0, Close_call 3]\<rparr>)"
    by (simp add: fpgaclose_def sys_munmap_def sys_close_def demo_h_def demo_map_def
        demo_world_def)
  have c: "fpgaclose demo_h 0 unopened_map boot_world =
     (SUCCESS, unopened_map, boot_world\<lparr>trace := [Munmap_call 0 0x5000 0]\<rparr>)"
    by (simp add: fpgaclose_def sys_munmap_def demo_h_def unopened_map_def boot_world_def)
  from fpgaclose_paths [OF a] fpgaclose_paths [OF b] fpgaclose_paths [OF c]
  show ?thesis
    using a b c by simp
qed

end
